theory Spec2Isabelle
  imports Main "HOL-Library.Word"
begin

section \<open>Strings of the JavaScript runtime\<close>

text \<open>
  A JavaScript string is a sequence of UTF-16 code units, and \<open>length\<close>, \<open>substring\<close>,
  \<open>trim\<close>, \<open>split\<close> and \<open>replace\<close> all work on code units. A \<open>Buffer\<close> is a sequence
  of bytes.
\<close>

type_synonym code_unit = "16 word"
type_synonym jsstring = "code_unit list"
type_synonym byte = "8 word"

text \<open>A string literal of the source, all of whose characters are 7-bit.\<close>

definition js :: "string \<Rightarrow> jsstring" where
  "js s = map of_char s"

definition CR :: code_unit where
  "CR = 0x0D"

definition LF :: code_unit where
  "LF = 0x0A"

text \<open>
  The characters that \<open>String.prototype.trim\<close> strips and that the regular expression
  class \<open>\s\<close> matches (ECMAScript WhiteSpace and LineTerminator; the two sets are the
  same): TAB, LF, VT, FF, CR, SPACE, NBSP, U+1680, U+2000..U+200A, U+2028, U+2029,
  U+202F, U+205F, U+3000 and U+FEFF.
\<close>

definition isWhiteSpace :: "code_unit \<Rightarrow> bool" where
  "isWhiteSpace c \<longleftrightarrow>
     c = 0x09 \<or> c = 0x0A \<or> c = 0x0B \<or> c = 0x0C \<or> c = 0x0D \<or> c = 0x20 \<or>
     c = 0xA0 \<or> c = 0x1680 \<or> (0x2000 \<le> c \<and> c \<le> 0x200A) \<or>
     c = 0x2028 \<or> c = 0x2029 \<or> c = 0x202F \<or> c = 0x205F \<or> c = 0x3000 \<or> c = 0xFEFF"

text \<open>\<open>s.trim()\<close>\<close>

definition trim :: "jsstring \<Rightarrow> jsstring" where
  "trim s = rev (dropWhile isWhiteSpace (rev (dropWhile isWhiteSpace s)))"

text \<open>
  \<open>s.replace(/\r\n/g, '\n')\<close>: the matches are found from left to right and do not
  overlap.
\<close>

fun replace_crlf :: "jsstring \<Rightarrow> jsstring" where
  "replace_crlf (a # b # s) =
     (if a = CR \<and> b = LF then LF # replace_crlf s else a # replace_crlf (b # s))"
| "replace_crlf s = s"

text \<open>\<open>s.replace(/\r/g, '\n')\<close>\<close>

definition replace_cr :: "jsstring \<Rightarrow> jsstring" where
  "replace_cr s = map (\<lambda>c. if c = CR then LF else c) s"

text \<open>
  \<open>s.split(/\s+/)\<close>: the pieces between the maximal runs of whitespace. A piece ends
  where a run begins and the next one starts after the whole run, so a run at the start
  or at the end of \<open>s\<close> leaves an empty piece there, and the empty string splits into
  one empty piece.
\<close>

function split_ws :: "jsstring \<Rightarrow> jsstring list" where
  "split_ws [] = [[]]"
| "split_ws (c # s) =
     (if isWhiteSpace c then [] # split_ws (dropWhile isWhiteSpace s)
      else
        (case split_ws s of
           [] \<Rightarrow> [[c]]
         | w # ws \<Rightarrow> (c # w) # ws))"
  by pat_completeness auto
termination
  by (relation "measure length") (simp_all add: less_Suc_eq_le length_dropWhile_le)

text \<open>\<open>s.split('\n')\<close>, for any one-character separator.\<close>

fun split_on :: "code_unit \<Rightarrow> jsstring \<Rightarrow> jsstring list" where
  "split_on d [] = [[]]"
| "split_on d (c # s) =
     (if c = d then [] # split_on d s
      else
        (case split_on d s of
           [] \<Rightarrow> [[c]]
         | l # ls \<Rightarrow> (c # l) # ls))"

section \<open>The analysis function\<close>

record analysis =
  wordCount :: nat
  lineCount :: nat
  normalizedText :: jsstring

text \<open>The first statement of \<open>analyzeText\<close>: the two replacements, then the trim.\<close>

definition normalizeText :: "jsstring \<Rightarrow> jsstring" where
  "normalizeText rawText = trim (replace_cr (replace_crlf rawText))"

definition analyzeText :: "jsstring \<Rightarrow> analysis" where
  "analyzeText rawText =
     (let normalizedText = normalizeText rawText;
          wordCount = length (filter (\<lambda>word. length (trim word) > 0) (split_ws normalizedText));
          lineCount = length (filter (\<lambda>line. length (trim line) > 0) (split_on LF normalizedText))
      in \<lparr>wordCount = wordCount, lineCount = lineCount, normalizedText = normalizedText\<rparr>)"

section \<open>The request handler\<close>

subsection \<open>Requests, responses and stored items\<close>

text \<open>
  The fields of \<open>APIGatewayProxyEvent\<close> that the handler reads. A body that is \<open>null\<close>
  is \<open>None\<close>. The headers are an object, as the type of the event says, and a header
  that is absent is \<open>None\<close> in the map.
\<close>

record event =
  body :: "jsstring option"
  headers :: "jsstring \<rightharpoonup> jsstring"
  isBase64Encoded :: bool

record lambda_context =
  awsRequestId :: jsstring

text \<open>
  A response carries the object that the source hands to \<open>JSON.stringify\<close>, kept as
  its list of properties, in \<open>jsonBody\<close>.
\<close>

datatype json = JString jsstring | JNumber nat

record response =
  statusCode :: nat
  jsonBody :: "(string \<times> json) list"

text \<open>
  The item given to the store: its properties \<open>id\<close>, \<open>textContent\<close>, \<open>wordCount\<close>,
  \<open>lineCount\<close> and \<open>processedAt\<close> (two of the names are taken by the analysis record
  and one by the identity function).
\<close>

record item =
  itemId :: jsstring
  textContent :: jsstring
  itemWordCount :: nat
  itemLineCount :: nat
  processedAt :: jsstring

record put_params =
  TableName :: jsstring
  Item :: item

text \<open>The tables of the store: the item found under a table name and a key.\<close>

type_synonym store = "jsstring \<times> jsstring \<rightharpoonup> item"

subsection \<open>What the handler takes from its platform\<close>

text \<open>
  The handler calls into Node.js and the AWS SDK: \<open>Buffer.from(s, 'base64')\<close>,
  \<open>Buffer.from(s, 'utf-8')\<close>, \<open>buffer.toString('utf-8')\<close>, \<open>s.toLowerCase()\<close>,
  \<open>Date.now()\<close>, \<open>new Date().toISOString()\<close>, the environment variable
  \<open>TABLE_NAME\<close> and \<open>dynamoDb.put(params).promise()\<close>. None of them is code of this
  repository, so the handler takes them as a parameter. A \<open>put\<close> returns the store it
  leaves behind together with the message of the error it throws, if it throws.
\<close>

record runtime =
  bufferFromBase64 :: "jsstring \<Rightarrow> byte list"
  bufferFromUtf8 :: "jsstring \<Rightarrow> byte list"
  bufferToString :: "byte list \<Rightarrow> jsstring"
  toLowerCase :: "jsstring \<Rightarrow> jsstring"
  dateNow :: nat
  toISOString :: jsstring
  tableName :: jsstring
  put :: "put_params \<Rightarrow> store \<Rightarrow> jsstring option \<times> store"

subsection \<open>Numbers and substrings\<close>

text \<open>A non-negative integer as \<open>String(n)\<close>, \<open>n.toString()\<close> and a template render it.\<close>

definition digit :: "nat \<Rightarrow> code_unit" where
  "digit d = of_nat (48 + d)"

function numberToString :: "nat \<Rightarrow> jsstring" where
  "numberToString n =
     (if n < 10 then [digit n] else numberToString (n div 10) @ [digit (n mod 10)])"
  by pat_completeness auto
termination
  by (relation "measure id") simp_all

declare numberToString.simps [simp del]

text \<open>\<open>s.includes(p)\<close>\<close>

fun stringIncludes :: "jsstring \<Rightarrow> jsstring \<Rightarrow> bool" where
  "stringIncludes [] p = (p = [])"
| "stringIncludes (c # s) p = (take (length p) (c # s) = p \<or> stringIncludes s p)"

subsection \<open>The handler\<close>

definition MAX_FILE_SIZE_BYTES :: nat where
  "MAX_FILE_SIZE_BYTES = 1 * 1024 * 1024"

text \<open>The response of every failed validation: status 400 and one message.\<close>

definition badRequest :: "jsstring \<Rightarrow> response" where
  "badRequest message = \<lparr>statusCode = 400, jsonBody = [(''message'', JString message)]\<rparr>"

definition fileSizeMessage :: "nat \<Rightarrow> jsstring" where
  "fileSizeMessage n =
     js ''File size exceeds the 1MB limit. Your file size: '' @ numberToString n @ js '' bytes.''"

text \<open>
  \<open>event.headers['content-type'] || event.headers['Content-Type']\<close>: the first header
  unless it is absent or empty.
\<close>

definition contentType :: "event \<Rightarrow> jsstring option" where
  "contentType event =
     (case headers event (js ''content-type'') of
        None \<Rightarrow> headers event (js ''Content-Type'')
      | Some v \<Rightarrow> if v = [] then headers event (js ''Content-Type'') else Some v)"

text \<open>\<open>!contentType || !contentType.toLowerCase().includes('text/plain')\<close>\<close>

definition invalidContentType :: "runtime \<Rightarrow> jsstring option \<Rightarrow> bool" where
  "invalidContentType rt ct =
     (case ct of
        None \<Rightarrow> True
      | Some v \<Rightarrow> v = [] \<or> \<not> stringIncludes (toLowerCase rt v) (js ''text/plain''))"

text \<open>
  Steps 1 to 6 of the handler. Each early \<open>return response\<close> is an \<open>Inl\<close>; a request
  that passes every check yields the analysis of its text.
\<close>

definition validate :: "runtime \<Rightarrow> event \<Rightarrow> response + analysis" where
  "validate rt event =
     (case body event of
        None \<Rightarrow> Inl (badRequest (js ''No file uploaded.''))
      | Some b \<Rightarrow>
          if b = [] then Inl (badRequest (js ''No file uploaded.''))
          else if invalidContentType rt (contentType event) then
            Inl (badRequest (js ''Invalid file type. Only text/plain (.txt) files are allowed.''))
          else
            let fileBuffer =
                  (if isBase64Encoded event then bufferFromBase64 rt b else bufferFromUtf8 rt b)
            in
              if length fileBuffer = 0 then Inl (badRequest (js ''Uploaded file is empty.''))
              else if length fileBuffer > MAX_FILE_SIZE_BYTES then
                Inl (badRequest (fileSizeMessage (length fileBuffer)))
              else
                let rawText = bufferToString rt fileBuffer
                in
                  if length (trim rawText) = 0 then
                    Inl (badRequest
                      (js ''Uploaded file contains no meaningful text (only whitespace).''))
                  else
                    let a = analyzeText rawText
                    in
                      if wordCount a = 0 \<and> lineCount a = 0 then
                        Inl (badRequest (js ''No text content found after processing.''))
                      else Inr a)"

text \<open>The parameters of the \<open>put\<close> of step 7.\<close>

definition putParams :: "runtime \<Rightarrow> analysis \<Rightarrow> put_params" where
  "putParams rt a =
     \<lparr>TableName = tableName rt,
      Item =
        \<lparr>itemId = numberToString (dateNow rt),
         textContent =
           (if length (normalizedText a) > 1000
            then take 1000 (normalizedText a) @ js ''...''
            else normalizedText a),
         itemWordCount = wordCount a,
         itemLineCount = lineCount a,
         processedAt = toISOString rt\<rparr>\<rparr>"

text \<open>
  The handler: the response and the store it leaves. An error thrown by \<open>put\<close> is
  caught by the \<open>catch\<close> block and answered with status 500. What the handler writes to
  the console is left out.
\<close>

definition handler :: "runtime \<Rightarrow> event \<Rightarrow> lambda_context \<Rightarrow> store \<Rightarrow> response \<times> store" where
  "handler rt event ctx db =
     (case validate rt event of
        Inl response \<Rightarrow> (response, db)
      | Inr a \<Rightarrow>
          (case put rt (putParams rt a) db of
             (Some errMessage, db') \<Rightarrow>
               (\<lparr>statusCode = 500,
                 jsonBody =
                   [(''message'', JString (js ''Error processing text'')),
                    (''error'', JString errMessage),
                    (''requestId'', JString (awsRequestId ctx))]\<rparr>,
                db')
           | (None, db') \<Rightarrow>
               (\<lparr>statusCode = 200,
                 jsonBody =
                   [(''message'', JString (js ''Text processed successfully'')),
                    (''processingId'', JString (numberToString (dateNow rt))),
                    (''wordCount'', JNumber (wordCount a)),
                    (''lineCount'', JNumber (lineCount a))]\<rparr>,
                db')))"

section \<open>The validation order of the specification\<close>

text \<open>
  The specification lists six failure conditions and fixes their order. They are written
  down here on their own, each as a condition on the request, to be compared with what
  the handler does.
\<close>

datatype failure =
  MissingPayload | WrongContentType | EmptyPayload | PayloadTooLarge | WhitespaceOnly | ZeroCounts

definition validationOrder :: "failure list" where
  "validationOrder =
     [MissingPayload, WrongContentType, EmptyPayload, PayloadTooLarge, WhitespaceOnly, ZeroCounts]"

text \<open>The payload after decoding; a request without a body has no bytes.\<close>

definition decodedPayload :: "runtime \<Rightarrow> event \<Rightarrow> byte list" where
  "decodedPayload rt event =
     (case body event of
        None \<Rightarrow> []
      | Some b \<Rightarrow> if isBase64Encoded event then bufferFromBase64 rt b else bufferFromUtf8 rt b)"

definition decodedText :: "runtime \<Rightarrow> event \<Rightarrow> jsstring" where
  "decodedText rt event = bufferToString rt (decodedPayload rt event)"

fun violated :: "runtime \<Rightarrow> event \<Rightarrow> failure \<Rightarrow> bool" where
  "violated rt event MissingPayload \<longleftrightarrow> body event = None \<or> body event = Some []"
| "violated rt event WrongContentType \<longleftrightarrow> invalidContentType rt (contentType event)"
| "violated rt event EmptyPayload \<longleftrightarrow> decodedPayload rt event = []"
| "violated rt event PayloadTooLarge \<longleftrightarrow> length (decodedPayload rt event) > 1048576"
| "violated rt event WhitespaceOnly \<longleftrightarrow> list_all isWhiteSpace (decodedText rt event)"
| "violated rt event ZeroCounts \<longleftrightarrow>
     wordCount (analyzeText (decodedText rt event)) = 0 \<and>
     lineCount (analyzeText (decodedText rt event)) = 0"

definition firstViolation :: "runtime \<Rightarrow> event \<Rightarrow> failure option" where
  "firstViolation rt event = find (violated rt event) validationOrder"

text \<open>The message that the handler has for each failure.\<close>

fun failureMessage :: "runtime \<Rightarrow> event \<Rightarrow> failure \<Rightarrow> jsstring" where
  "failureMessage rt event MissingPayload = js ''No file uploaded.''"
| "failureMessage rt event WrongContentType =
     js ''Invalid file type. Only text/plain (.txt) files are allowed.''"
| "failureMessage rt event EmptyPayload = js ''Uploaded file is empty.''"
| "failureMessage rt event PayloadTooLarge = fileSizeMessage (length (decodedPayload rt event))"
| "failureMessage rt event WhitespaceOnly =
     js ''Uploaded file contains no meaningful text (only whitespace).''"
| "failureMessage rt event ZeroCounts = js ''No text content found after processing.''"

section \<open>The store and line-ending conventions\<close>

text \<open>
  A \<open>put\<close> that is a single write: a call that returns has stored the item under its
  table and key, and a call that throws has stored nothing. The handler does not depend
  on it; it is what "stored" means where a theorem speaks of the stored item.
\<close>

definition putContract :: "(put_params \<Rightarrow> store \<Rightarrow> jsstring option \<times> store) \<Rightarrow> bool" where
  "putContract p \<longleftrightarrow>
     (\<forall>params db.
        p params db = (None, db((TableName params, itemId (Item params)) \<mapsto> Item params)) \<or>
        (\<exists>errMessage. p params db = (Some errMessage, db)))"

text \<open>
  A text whose line breaks are line feeds, rewritten with CR LF or with a lone CR at
  every line break.
\<close>

definition with_crlf :: "jsstring \<Rightarrow> jsstring" where
  "with_crlf t = concat (map (\<lambda>c. if c = LF then [CR, LF] else [c]) t)"

definition with_cr :: "jsstring \<Rightarrow> jsstring" where
  "with_cr t = map (\<lambda>c. if c = LF then CR else c) t"

text \<open>The two counts of \<open>analyzeText\<close>, as functions of the normalized text.\<close>

definition countWords :: "jsstring \<Rightarrow> nat" where
  "countWords s = length (filter (\<lambda>word. length (trim word) > 0) (split_ws s))"

definition countLines :: "jsstring \<Rightarrow> nat" where
  "countLines s = length (filter (\<lambda>line. length (trim line) > 0) (split_on LF s))"

section \<open>A runtime for concrete requests\<close>

text \<open>
  The theorems below hold for every runtime. To run the handler on a concrete request
  one runtime is fixed here: UTF-8 encoding of a string (an unpaired surrogate becomes
  U+FFFD) and UTF-8 decoding of a buffer (each ill-formed maximal subpart becomes U+FFFD,
  and a byte order mark is kept), a fixed clock, and a store whose \<open>put\<close> always
  succeeds. Its requests are sent as plain 7-bit text: base64 bodies are not decoded
  by this runtime (it reads them as the empty buffer), and lower-casing changes the
  letters A to Z only.
\<close>

definition replacementBytes :: "byte list" where
  "replacementBytes = [0xEF, 0xBF, 0xBD]"

fun utf8Encode :: "jsstring \<Rightarrow> byte list" where
  "utf8Encode [] = []"
| "utf8Encode (c # s) =
     (let n = unat c in
        if n < 0x80 then of_nat n # utf8Encode s
        else if n < 0x800 then of_nat (0xC0 + n div 64) # of_nat (0x80 + n mod 64) # utf8Encode s
        else if 0xD800 \<le> n \<and> n < 0xDC00 then
          (case s of
             [] \<Rightarrow> replacementBytes
           | d # s' \<Rightarrow>
               let m = unat d in
                 if 0xDC00 \<le> m \<and> m < 0xE000 then
                   (let cp = 0x10000 + (n - 0xD800) * 1024 + (m - 0xDC00) in
                      of_nat (0xF0 + cp div 262144) # of_nat (0x80 + cp div 4096 mod 64) #
                      of_nat (0x80 + cp div 64 mod 64) # of_nat (0x80 + cp mod 64) #
                      utf8Encode s')
                 else replacementBytes @ utf8Encode s)
        else if 0xDC00 \<le> n \<and> n < 0xE000 then replacementBytes @ utf8Encode s
        else
          of_nat (0xE0 + n div 4096) # of_nat (0x80 + n div 64 mod 64) #
          of_nat (0x80 + n mod 64) # utf8Encode s)"

definition continuation :: "byte \<Rightarrow> bool" where
  "continuation b \<longleftrightarrow> 0x80 \<le> unat b \<and> unat b \<le> 0xBF"

definition codePoint :: "nat \<Rightarrow> jsstring" where
  "codePoint cp =
     (if cp < 0x10000 then [of_nat cp]
      else [of_nat (0xD800 + (cp - 0x10000) div 1024), of_nat (0xDC00 + (cp - 0x10000) mod 1024)])"

fun utf8Decode :: "byte list \<Rightarrow> jsstring" where
  "utf8Decode [] = []"
| "utf8Decode (b # bs) =
     (let n = unat b in
        if n < 0x80 then of_nat n # utf8Decode bs
        else if 0xC2 \<le> n \<and> n \<le> 0xDF then
          (case bs of
             [] \<Rightarrow> [0xFFFD]
           | b1 # r1 \<Rightarrow>
               if continuation b1 then
                 codePoint ((n - 0xC0) * 64 + (unat b1 - 0x80)) @ utf8Decode r1
               else 0xFFFD # utf8Decode bs)
        else if 0xE0 \<le> n \<and> n \<le> 0xEF then
          (case bs of
             [] \<Rightarrow> [0xFFFD]
           | b1 # r1 \<Rightarrow>
               if (if n = 0xE0 then 0xA0 else 0x80) \<le> unat b1 \<and>
                  unat b1 \<le> (if n = 0xED then 0x9F else 0xBF) then
                 (case r1 of
                    [] \<Rightarrow> [0xFFFD]
                  | b2 # r2 \<Rightarrow>
                      if continuation b2 then
                        codePoint ((n - 0xE0) * 4096 + (unat b1 - 0x80) * 64 + (unat b2 - 0x80))
                        @ utf8Decode r2
                      else 0xFFFD # utf8Decode r1)
               else 0xFFFD # utf8Decode bs)
        else if 0xF0 \<le> n \<and> n \<le> 0xF4 then
          (case bs of
             [] \<Rightarrow> [0xFFFD]
           | b1 # r1 \<Rightarrow>
               if (if n = 0xF0 then 0x90 else 0x80) \<le> unat b1 \<and>
                  unat b1 \<le> (if n = 0xF4 then 0x8F else 0xBF) then
                 (case r1 of
                    [] \<Rightarrow> [0xFFFD]
                  | b2 # r2 \<Rightarrow>
                      if continuation b2 then
                        (case r2 of
                           [] \<Rightarrow> [0xFFFD]
                         | b3 # r3 \<Rightarrow>
                             if continuation b3 then
                               codePoint ((n - 0xF0) * 262144 + (unat b1 - 0x80) * 4096 +
                                  (unat b2 - 0x80) * 64 + (unat b3 - 0x80))
                               @ utf8Decode r3
                             else 0xFFFD # utf8Decode r2)
                      else 0xFFFD # utf8Decode r1)
               else 0xFFFD # utf8Decode bs)
        else 0xFFFD # utf8Decode bs)"

definition asciiLower :: "code_unit \<Rightarrow> code_unit" where
  "asciiLower c = (if 0x41 \<le> c \<and> c \<le> 0x5A then c + 0x20 else c)"

definition putItem :: "put_params \<Rightarrow> store \<Rightarrow> jsstring option \<times> store" where
  "putItem params db = (None, db((TableName params, itemId (Item params)) \<mapsto> Item params))"

definition failingPut :: "put_params \<Rightarrow> store \<Rightarrow> jsstring option \<times> store" where
  "failingPut params db = (Some (js ''Requested resource not found''), db)"

text \<open>
  A \<open>put\<close> that throws after the item has reached the table, as a request does whose
  answer is lost on the way back.
\<close>

definition latePut :: "put_params \<Rightarrow> store \<Rightarrow> jsstring option \<times> store" where
  "latePut params db =
     (Some (js ''Connection timed out after 120000ms''),
      db((TableName params, itemId (Item params)) \<mapsto> Item params))"

definition plainRuntime :: runtime where
  "plainRuntime =
     \<lparr>bufferFromBase64 = (\<lambda>s. []),
      bufferFromUtf8 = utf8Encode,
      bufferToString = utf8Decode,
      toLowerCase = map asciiLower,
      dateNow = 1700000000000,
      toISOString = js ''2023-11-14T22:13:20.000Z'',
      tableName = js ''TextDataTable'',
      put = putItem\<rparr>"

text \<open>A request with a plain-text body and the header \<open>Content-Type: text/plain\<close>.\<close>

definition plainRequest :: "jsstring \<Rightarrow> event" where
  "plainRequest b =
     \<lparr>body = Some b,
      headers = [js ''Content-Type'' \<mapsto> js ''text/plain''],
      isBase64Encoded = False\<rparr>"

text \<open>The invocation context of the concrete requests.\<close>

definition sampleContext :: lambda_context where
  "sampleContext = \<lparr>awsRequestId = js ''c6956f5f-4b0e-4d9c-9f3a-1f2e3d4c5b6a''\<rparr>"

section \<open>Lemmas on trimming, replacing and splitting\<close>

lemma isWhiteSpace_CR: "isWhiteSpace CR"
  by (simp add: isWhiteSpace_def CR_def)

lemma isWhiteSpace_LF: "isWhiteSpace LF"
  by (simp add: isWhiteSpace_def LF_def)

lemma CR_neq_LF: "CR \<noteq> LF"
  by (simp add: CR_def LF_def)

lemma all_dropWhile: "(\<forall>x\<in>set (dropWhile P s). P x) \<longleftrightarrow> (\<forall>x\<in>set s. P x)"
  by (induction s) auto

lemma trim_eq_Nil_iff: "trim s = [] \<longleftrightarrow> (\<forall>c\<in>set s. isWhiteSpace c)"
  by (simp add: trim_def all_dropWhile)

lemma dropWhile_rev_keeps_hd:
  "t \<noteq> [] \<Longrightarrow> \<not> P (hd t) \<Longrightarrow> \<exists>u. rev (dropWhile P (rev t)) = hd t # u"
proof (induction t rule: rev_induct)
  case Nil
  then show ?case by simp
next
  case (snoc x xs)
  show ?case
  proof (cases xs)
    case Nil
    with snoc.prems show ?thesis by simp
  next
    case (Cons a list)
    with snoc.prems have "\<not> P (hd xs)" "xs \<noteq> []" by simp_all
    with snoc.IH obtain u where u: "rev (dropWhile P (rev xs)) = hd xs # u" by blast
    show ?thesis
    proof (cases "P x")
      case True
      with u Cons show ?thesis by simp
    next
      case False
      with Cons show ?thesis by simp
    qed
  qed
qed

lemma dropWhile_trimmed_right:
  "dropWhile P (rev (dropWhile P (rev (dropWhile P s)))) = rev (dropWhile P (rev (dropWhile P s)))"
proof (cases "dropWhile P s = []")
  case True
  show ?thesis unfolding True by simp
next
  case False
  then have "\<not> P (hd (dropWhile P s))"
    by (simp add: hd_dropWhile)
  with False obtain u where "rev (dropWhile P (rev (dropWhile P s))) = hd (dropWhile P s) # u"
    using dropWhile_rev_keeps_hd by blast
  with \<open>\<not> P (hd (dropWhile P s))\<close> show ?thesis by simp
qed

lemma trim_idem: "trim (trim s) = trim s"
  by (simp add: trim_def dropWhile_trimmed_right)

lemma set_trim: "set (trim s) \<subseteq> set s"
  unfolding trim_def by (metis set_rev set_dropWhileD subsetI)

lemma CR_notin_replace_cr: "CR \<notin> set (replace_cr s)"
  using CR_neq_LF by (auto simp: replace_cr_def)

lemma replace_crlf_no_CR: "CR \<notin> set s \<Longrightarrow> replace_crlf s = s"
  by (induction s rule: replace_crlf.induct) auto

lemma replace_cr_no_CR: "CR \<notin> set s \<Longrightarrow> replace_cr s = s"
  by (induction s) (auto simp: replace_cr_def)

lemma CR_notin_normalizeText: "CR \<notin> set (normalizeText s)"
  using set_trim CR_notin_replace_cr unfolding normalizeText_def by blast

lemma normalizeText_idem: "normalizeText (normalizeText s) = normalizeText s"
proof -
  have "CR \<notin> set (normalizeText s)" by (rule CR_notin_normalizeText)
  then have "replace_cr (replace_crlf (normalizeText s)) = normalizeText s"
    by (simp add: replace_crlf_no_CR replace_cr_no_CR)
  then have "normalizeText (normalizeText s) = trim (normalizeText s)"
    by (simp add: normalizeText_def)
  then show ?thesis by (simp add: normalizeText_def trim_idem)
qed

lemma split_ws_not_Nil: "split_ws s \<noteq> []"
  by (cases s) (simp_all split: list.splits)

lemma split_on_not_Nil: "split_on d s \<noteq> []"
  by (cases s) (simp_all split: list.splits)

lemma hd_split_ws_ws: "s = [] \<or> isWhiteSpace (hd s) \<Longrightarrow> hd (split_ws s) = []"
  by (cases s) simp_all

lemma trim_Nil: "trim [] = []"
  by (simp add: trim_def)

lemma words_Nil: "countWords [] = 0"
  by (simp add: countWords_def trim_Nil)

lemma lines_Nil: "countLines [] = 0"
  by (simp add: countLines_def trim_Nil)

lemma words_skip: "isWhiteSpace c \<Longrightarrow> countWords (c # s) = countWords (dropWhile isWhiteSpace s)"
  by (simp add: countWords_def trim_Nil)

lemma words_dropWhile: "countWords (dropWhile isWhiteSpace s) = countWords s"
  by (cases s) (simp_all add: words_skip)

lemma words_ws: "isWhiteSpace c \<Longrightarrow> countWords (c # s) = countWords s"
  by (simp add: words_skip words_dropWhile)

lemma words_non_ws:
  assumes "\<not> isWhiteSpace c"
  shows "countWords (c # s) = (if s = [] \<or> isWhiteSpace (hd s) then Suc (countWords s) else countWords s)"
proof -
  obtain w ws where sp: "split_ws s = w # ws"
    using split_ws_not_Nil [of s] by (cases "split_ws s") auto
  have c: "countWords (c # s) = Suc (length (filter (\<lambda>word. length (trim word) > 0) ws))"
    using assms sp by (simp add: countWords_def trim_eq_Nil_iff)
  show ?thesis
  proof (cases "s = [] \<or> isWhiteSpace (hd s)")
    case True
    then have "w = []" using hd_split_ws_ws [of s] sp by simp
    then have "countWords s = length (filter (\<lambda>word. length (trim word) > 0) ws)"
      using sp by (simp add: countWords_def trim_Nil)
    with c True show ?thesis by simp
  next
    case False
    then obtain d s' where s: "s = d # s'" and d: "\<not> isWhiteSpace d"
      by (cases s) auto
    then have "d \<in> set w"
      using sp by (auto split: list.splits)
    with d have "0 < length (trim w)" by (auto simp: trim_eq_Nil_iff)
    then have "countWords s = Suc (length (filter (\<lambda>word. length (trim word) > 0) ws))"
      using sp by (simp add: countWords_def)
    with c False show ?thesis by simp
  qed
qed

lemma lines_ws: "isWhiteSpace c \<Longrightarrow> countLines (c # s) = countLines s"
  using split_on_not_Nil [of LF s]
  by (cases "split_on LF s") (simp_all add: countLines_def trim_eq_Nil_iff)

lemma lines_non_ws:
  assumes "\<not> isWhiteSpace c"
  shows "countLines (c # s) \<le> (if s = [] \<or> isWhiteSpace (hd s) then Suc (countLines s) else countLines s)"
proof -
  obtain l ls where sp: "split_on LF s = l # ls"
    using split_on_not_Nil [of LF s] by (cases "split_on LF s") auto
  have cLF: "c \<noteq> LF" using assms isWhiteSpace_LF by auto
  have c: "countLines (c # s) = Suc (length (filter (\<lambda>line. length (trim line) > 0) ls))"
    using assms sp cLF by (simp add: countLines_def trim_eq_Nil_iff)
  show ?thesis
  proof (cases "s = [] \<or> isWhiteSpace (hd s)")
    case True
    have "length (filter (\<lambda>line. length (trim line) > 0) ls) \<le> countLines s"
      using sp by (simp add: countLines_def)
    with c True show ?thesis by simp
  next
    case False
    then obtain d s' where s: "s = d # s'" and d: "\<not> isWhiteSpace d"
      by (cases s) auto
    then have "d \<noteq> LF" using isWhiteSpace_LF by auto
    then have "d \<in> set l"
      using sp s by (auto split: list.splits)
    with d have "0 < length (trim l)" by (auto simp: trim_eq_Nil_iff)
    then have "countLines s = Suc (length (filter (\<lambda>line. length (trim line) > 0) ls))"
      using sp by (simp add: countLines_def)
    with c False show ?thesis by simp
  qed
qed

lemma lines_le_words: "countLines s \<le> countWords s"
proof (induction s)
  case Nil
  show ?case by (simp add: words_Nil lines_Nil)
next
  case (Cons c s)
  show ?case
  proof (cases "isWhiteSpace c")
    case True
    with Cons show ?thesis by (simp add: words_ws lines_ws)
  next
    case False
    show ?thesis
    proof (cases "s = [] \<or> isWhiteSpace (hd s)")
      case True
      then have "countLines (c # s) \<le> Suc (countLines s)" "countWords (c # s) = Suc (countWords s)"
        using lines_non_ws [OF False, of s] words_non_ws [OF False, of s] by simp_all
      with Cons show ?thesis by simp
    next
      case nws: False
      then have "countLines (c # s) \<le> countLines s" "countWords (c # s) = countWords s"
        using lines_non_ws [OF False, of s] words_non_ws [OF False, of s] by simp_all
      with Cons show ?thesis by simp
    qed
  qed
qed

lemma analyzeText_counts:
  "wordCount (analyzeText s) = countWords (normalizeText s)"
  "lineCount (analyzeText s) = countLines (normalizeText s)"
  "normalizedText (analyzeText s) = normalizeText s"
  by (simp_all add: analyzeText_def countWords_def countLines_def Let_def)

lemma mem_replace_crlf: "c \<in> set s \<Longrightarrow> c \<noteq> CR \<Longrightarrow> c \<in> set (replace_crlf s)"
  by (induction s rule: replace_crlf.induct) auto

lemma mem_replace_cr: "c \<in> set s \<Longrightarrow> c \<noteq> CR \<Longrightarrow> c \<in> set (replace_cr s)"
  by (auto simp: replace_cr_def)

lemma mem_dropWhile: "c \<in> set s \<Longrightarrow> \<not> P c \<Longrightarrow> c \<in> set (dropWhile P s)"
  by (induction s) auto

lemma mem_trim: "c \<in> set s \<Longrightarrow> \<not> isWhiteSpace c \<Longrightarrow> c \<in> set (trim s)"
  by (simp add: trim_def mem_dropWhile)

lemma mem_normalizeText:
  assumes "c \<in> set s" and "\<not> isWhiteSpace c"
  shows "c \<in> set (normalizeText s)"
proof -
  have "c \<noteq> CR" using assms(2) isWhiteSpace_CR by auto
  then show ?thesis
    using assms by (simp add: normalizeText_def mem_trim mem_replace_cr mem_replace_crlf)
qed

lemma mem_split_on: "c \<in> set s \<Longrightarrow> c \<noteq> d \<Longrightarrow> \<exists>l\<in>set (split_on d s). c \<in> set l"
proof (induction s)
  case Nil
  then show ?case by simp
next
  case (Cons a s)
  obtain l ls where sp: "split_on d s = l # ls"
    using split_on_not_Nil [of d s] by (cases "split_on d s") auto
  show ?case
  proof (cases "c \<in> set s")
    case True
    with Cons obtain k where "k \<in> set (l # ls)" "c \<in> set k" using sp by auto
    then show ?thesis using sp by (cases "a = d") auto
  next
    case False
    with Cons.prems have "a = c" by simp
    with Cons.prems show ?thesis using sp by simp
  qed
qed

lemma lines_pos:
  assumes "c \<in> set t" and "\<not> isWhiteSpace c"
  shows "0 < countLines t"
proof -
  have "c \<noteq> LF" using assms(2) isWhiteSpace_LF by auto
  then obtain l where "l \<in> set (split_on LF t)" "c \<in> set l"
    using mem_split_on assms(1) by blast
  then have "\<exists>l\<in>set (split_on LF t). 0 < length (trim l)"
    using assms(2) by (auto simp: trim_eq_Nil_iff)
  then show ?thesis
    by (simp add: countLines_def length_pos_if_in_set filter_empty_conv)
qed

lemma replace_crlf_Cons: "a \<noteq> CR \<Longrightarrow> replace_crlf (a # s) = a # replace_crlf s"
  by (cases s) simp_all

lemma replace_crlf_with_crlf: "CR \<notin> set t \<Longrightarrow> replace_crlf (with_crlf t) = t"
proof (induction t)
  case Nil
  show ?case by (simp add: with_crlf_def)
next
  case (Cons a t)
  then have ih: "replace_crlf (with_crlf t) = t" and a: "a \<noteq> CR" by auto
  show ?case
  proof (cases "a = LF")
    case True
    then have "with_crlf (a # t) = CR # LF # with_crlf t" by (simp add: with_crlf_def)
    with ih True show ?thesis by simp
  next
    case False
    then have "with_crlf (a # t) = a # with_crlf t" by (simp add: with_crlf_def)
    with ih a show ?thesis by (simp add: replace_crlf_Cons)
  qed
qed

lemma replace_crlf_no_LF: "LF \<notin> set s \<Longrightarrow> replace_crlf s = s"
  by (induction s rule: replace_crlf.induct) auto

lemma LF_notin_with_cr: "LF \<notin> set (with_cr t)"
  using CR_neq_LF by (auto simp: with_cr_def)

lemma replace_cr_with_cr: "CR \<notin> set t \<Longrightarrow> replace_cr (with_cr t) = t"
  by (induction t) (auto simp: with_cr_def replace_cr_def)

lemma normalizeText_with_crlf: "CR \<notin> set t \<Longrightarrow> normalizeText (with_crlf t) = normalizeText t"
  by (simp add: normalizeText_def replace_crlf_with_crlf replace_crlf_no_CR)

lemma normalizeText_with_cr: "CR \<notin> set t \<Longrightarrow> normalizeText (with_cr t) = normalizeText t"
  by (simp add: normalizeText_def replace_cr_with_cr replace_crlf_no_LF LF_notin_with_cr
      replace_crlf_no_CR replace_cr_no_CR)

lemma analyzeText_cong: "normalizeText a = normalizeText b \<Longrightarrow> analyzeText a = analyzeText b"
  by (simp add: analyzeText_def)

lemma analysis_positive:
  assumes "c \<in> set rawText" and "\<not> isWhiteSpace c"
  shows "0 < countLines (normalizeText rawText)" and "0 < countWords (normalizeText rawText)"
proof -
  have "c \<in> set (normalizeText rawText)" using assms by (rule mem_normalizeText)
  then show l: "0 < countLines (normalizeText rawText)" using assms(2) by (rule lines_pos)
  show "0 < countWords (normalizeText rawText)"
    using l lines_le_words [of "normalizeText rawText"] by simp
qed

lemma trim_no_ws: "list_all (\<lambda>c. \<not> isWhiteSpace c) s \<Longrightarrow> trim s = s"
proof -
  assume a: "list_all (\<lambda>c. \<not> isWhiteSpace c) s"
  then have "dropWhile isWhiteSpace s = s"
    by (cases s) simp_all
  moreover from a have "dropWhile isWhiteSpace (rev s) = rev s"
    by (cases "rev s") (auto simp: list_all_iff dest: arg_cong [where f = set])
  ultimately show ?thesis by (simp add: trim_def)
qed

lemma trim_append_ws:
  assumes "list_all isWhiteSpace w"
  shows "trim (s @ w) = trim s"
proof (cases "list_all isWhiteSpace s")
  case True
  with assms have "trim (s @ w) = []" "trim s = []"
    by (auto simp: trim_eq_Nil_iff list_all_iff)
  then show ?thesis by simp
next
  case False
  then obtain x where "x \<in> set s" "\<not> isWhiteSpace x" by (auto simp: list_all_iff)
  then have "dropWhile isWhiteSpace (s @ w) = dropWhile isWhiteSpace s @ w"
    by (rule dropWhile_append1)
  moreover have "dropWhile isWhiteSpace (rev w @ rev (dropWhile isWhiteSpace s)) =
      dropWhile isWhiteSpace (rev (dropWhile isWhiteSpace s))"
    using assms by (intro dropWhile_append2) (simp add: list_all_iff)
  ultimately show ?thesis by (simp add: trim_def)
qed

section \<open>Lemmas on the handler\<close>

lemma MAX_FILE_SIZE_BYTES_eq: "MAX_FILE_SIZE_BYTES = 1048576"
  by (simp add: MAX_FILE_SIZE_BYTES_def)

lemma validate_eq:
  "validate rt event =
     (case firstViolation rt event of
        Some f \<Rightarrow> Inl (badRequest (failureMessage rt event f))
      | None \<Rightarrow> Inr (analyzeText (decodedText rt event)))"
proof (cases "body event")
  case None
  then show ?thesis
    by (simp add: validate_def firstViolation_def validationOrder_def)
next
  case (Some b)
  then show ?thesis
    by (simp add: validate_def firstViolation_def validationOrder_def decodedPayload_def
        decodedText_def Let_def MAX_FILE_SIZE_BYTES_eq trim_eq_Nil_iff list_all_iff)
qed

lemma validate_Inr:
  assumes "validate rt event = Inr a"
  shows "firstViolation rt event = None" and "a = analyzeText (decodedText rt event)"
  using assms by (auto simp: validate_eq split: option.splits)

lemma firstViolation_None: "firstViolation rt event = None \<Longrightarrow> \<not> violated rt event f"
  by (cases f) (simp_all add: firstViolation_def validationOrder_def split: if_splits)

lemma validate_Inl_status: "validate rt event = Inl r \<Longrightarrow> statusCode r = 400"
  by (auto simp: validate_eq badRequest_def split: option.splits)



lemma invalidContentType_put_update:
  "invalidContentType (rt\<lparr>put := p\<rparr>) ct = invalidContentType rt ct"
  by (cases ct) (simp_all add: invalidContentType_def)

lemma validate_put_update: "validate (rt\<lparr>put := p\<rparr>) event = validate rt event"
  unfolding validate_def invalidContentType_put_update
  by (simp cong: if_cong option.case_cong)

section \<open>Lemmas on the runtime for concrete requests\<close>

lemma utf8Encode_Cons_7bit: "unat c < 0x80 \<Longrightarrow> utf8Encode (c # s) = of_nat (unat c) # utf8Encode s"
  by (simp only: utf8Encode.simps Let_def if_True)

lemma utf8Decode_Cons_7bit: "unat b < 0x80 \<Longrightarrow> utf8Decode (b # bs) = of_nat (unat b) # utf8Decode bs"
  by (simp only: utf8Decode.simps Let_def if_True)

lemma unat_7bit: "(c :: 16 word) < 0x80 \<Longrightarrow> unat c < 0x80"
  by (simp add: word_less_nat_alt)

lemma unat_of_nat_7bit: "n < 0x80 \<Longrightarrow> unat (of_nat n :: 8 word) = n"
  by (simp add: unat_of_nat)

lemma utf8_round_trip_7bit: "list_all (\<lambda>c. c < 0x80) s \<Longrightarrow> utf8Decode (utf8Encode s) = s"
proof (induction s)
  case Nil
  show ?case by simp
next
  case (Cons c s)
  then have c: "unat c < 0x80" and ih: "utf8Decode (utf8Encode s) = s"
    by (simp_all add: unat_7bit)
  have "utf8Decode (utf8Encode (c # s)) = utf8Decode (of_nat (unat c) # utf8Encode s)"
    using c by (simp only: utf8Encode_Cons_7bit)
  also have "\<dots> = of_nat (unat (of_nat (unat c) :: 8 word)) # utf8Decode (utf8Encode s)"
    using c by (simp only: utf8Decode_Cons_7bit unat_of_nat_7bit)
  also have "\<dots> = of_nat (unat c) # s"
    by (simp only: unat_of_nat_7bit [OF c] ih)
  also have "\<dots> = c # s"
    by simp
  finally show ?case .
qed

lemma length_utf8Encode_7bit: "list_all (\<lambda>c. c < 0x80) s \<Longrightarrow> length (utf8Encode s) = length s"
proof (induction s)
  case Nil
  show ?case by simp
next
  case (Cons c s)
  then have c: "unat c < 0x80" and ih: "length (utf8Encode s) = length s"
    by (simp_all add: unat_7bit)
  show ?case using ih by (simp only: utf8Encode_Cons_7bit [OF c] length_Cons)
qed

lemma putContract_putItem: "putContract putItem"
  by (simp add: putContract_def putItem_def)

lemma contentType_plainRequest: "contentType (plainRequest b) = Some (js ''text/plain'')"
  by (simp add: contentType_def plainRequest_def js_def)

lemma plainRuntime_accepts_text_plain:
  "\<not> invalidContentType plainRuntime (Some (js ''text/plain''))"
  by (simp add: invalidContentType_def plainRuntime_def js_def asciiLower_def)

lemma decodedPayload_plainRequest:
  "decodedPayload plainRuntime (plainRequest b) = utf8Encode b"
  by (simp add: decodedPayload_def plainRuntime_def plainRequest_def)

lemma decodedText_plainRequest:
  "list_all (\<lambda>c. c < 0x80) b \<Longrightarrow> decodedText plainRuntime (plainRequest b) = b"
  unfolding decodedText_def decodedPayload_plainRequest
  by (simp add: utf8_round_trip_7bit plainRuntime_def)

lemma firstViolation_plainRequest:
  assumes "list_all (\<lambda>c. c < 0x80) b" and "length b \<le> 1048576"
    and "c \<in> set b" and "\<not> isWhiteSpace c"
  shows "firstViolation plainRuntime (plainRequest b) = None"
proof -
  have b: "b \<noteq> []" using assms(3) by auto
  have p: "length (decodedPayload plainRuntime (plainRequest b)) = length b"
    using assms(1) by (simp add: decodedPayload_plainRequest length_utf8Encode_7bit)
  then have pe: "decodedPayload plainRuntime (plainRequest b) \<noteq> []" using b by auto
  have t: "decodedText plainRuntime (plainRequest b) = b"
    using assms(1) by (rule decodedText_plainRequest)
  have ws: "\<not> list_all isWhiteSpace b" using assms(3,4) by (auto simp: list_all_iff)
  have w: "0 < countWords (normalizeText b)" using assms(3,4) by (rule analysis_positive)
  have "body (plainRequest b) = Some b" by (simp add: plainRequest_def)
  then show ?thesis
    using b p pe t ws w assms(2)
    by (simp add: firstViolation_def validationOrder_def contentType_plainRequest
        plainRuntime_accepts_text_plain analyzeText_counts)
qed

lemma validate_plainRequest:
  assumes "list_all (\<lambda>c. c < 0x80) b" and "length b \<le> 1048576"
    and "c \<in> set b" and "\<not> isWhiteSpace c"
  shows "validate plainRuntime (plainRequest b) = Inr (analyzeText b)"
  using firstViolation_plainRequest [OF assms] decodedText_plainRequest [OF assms(1)]
  by (simp add: validate_eq)

lemma handler_plainRequest:
  assumes "validate plainRuntime (plainRequest b) = Inr a"
  shows "statusCode (fst (handler plainRuntime (plainRequest b) ctx db)) = 200"
    and "snd (handler plainRuntime (plainRequest b) ctx db)
           (tableName plainRuntime, numberToString (dateNow plainRuntime)) =
         Some (Item (putParams plainRuntime a))"
  using assms by (simp_all add: handler_def) (simp_all add: plainRuntime_def putItem_def putParams_def)

lemma validate_hello:
  "validate plainRuntime (plainRequest (js ''hello world'')) = Inr (analyzeText (js ''hello world''))"
  by (rule validate_plainRequest [where c = "0x68"]) (simp_all add: js_def isWhiteSpace_def)

lemma normalizeText_hello: "normalizeText (js ''hello world'') = js ''hello world''"
  by (simp add: normalizeText_def replace_cr_def trim_def js_def isWhiteSpace_def CR_def LF_def)

lemma validate_blank:
  "validate plainRuntime (plainRequest [0x20, 0x09, 0x20]) =
     Inl (badRequest (js ''Uploaded file contains no meaningful text (only whitespace).''))"
proof -
  have t: "decodedText plainRuntime (plainRequest [0x20, 0x09, 0x20]) = [0x20, 0x09, 0x20]"
    by (rule decodedText_plainRequest) simp
  have p: "decodedPayload plainRuntime (plainRequest [0x20, 0x09, 0x20]) = [0x20, 0x09, 0x20]"
    by (simp add: decodedPayload_plainRequest Let_def)
  have f: "firstViolation plainRuntime (plainRequest [0x20, 0x09, 0x20]) = Some WhitespaceOnly"
    by (simp add: firstViolation_def validationOrder_def contentType_plainRequest
        plainRuntime_accepts_text_plain t p isWhiteSpace_def)
      (simp add: plainRequest_def)
  then show ?thesis by (simp add: validate_eq)
qed

lemma normalizeText_letters: "normalizeText (replicate 1200 0x61) = replicate 1200 0x61"
proof -
  have cr: "CR \<notin> set (replicate 1200 0x61)"
    by (simp add: CR_def)
  have "trim (replicate 1200 0x61) = replicate 1200 0x61"
    by (rule trim_no_ws) (simp add: list_all_iff isWhiteSpace_def)
  then show ?thesis
    unfolding normalizeText_def replace_crlf_no_CR [OF cr] replace_cr_no_CR [OF cr] .
qed

lemma validate_letters:
  "validate plainRuntime (plainRequest (replicate 1200 0x61)) =
     Inr (analyzeText (replicate 1200 0x61))"
proof (rule validate_plainRequest)
  show "list_all (\<lambda>c. c < 0x80) (replicate 1200 0x61 :: jsstring)"
    by (simp add: list_all_iff)
  show "length (replicate 1200 0x61 :: jsstring) \<le> 1048576"
    by simp
  show "0x61 \<in> set (replicate 1200 0x61 :: jsstring)"
    by simp
  show "\<not> isWhiteSpace 0x61"
    by (simp add: isWhiteSpace_def)
qed


lemma normalizeText_padded:
  "normalizeText (replicate 999 0x61 @ replicate 201 0x20) = replicate 999 0x61"
proof -
  have cr: "CR \<notin> set (replicate 999 0x61 @ replicate 201 0x20)"
    by (simp add: CR_def)
  have "trim (replicate 999 0x61 @ replicate 201 0x20) = trim (replicate 999 0x61)"
    by (rule trim_append_ws) (simp add: list_all_iff isWhiteSpace_def)
  also have "\<dots> = replicate 999 0x61"
    by (rule trim_no_ws) (simp add: list_all_iff isWhiteSpace_def)
  finally show ?thesis
    unfolding normalizeText_def replace_crlf_no_CR [OF cr] replace_cr_no_CR [OF cr] .
qed

lemma validate_padded:
  "validate plainRuntime (plainRequest (replicate 999 0x61 @ replicate 201 0x20)) =
     Inr (analyzeText (replicate 999 0x61 @ replicate 201 0x20))"
proof (rule validate_plainRequest)
  show "list_all (\<lambda>c. c < 0x80) (replicate 999 0x61 @ replicate 201 0x20 :: jsstring)"
    by (simp add: list_all_iff)
  show "length (replicate 999 0x61 @ replicate 201 0x20 :: jsstring) \<le> 1048576"
    by simp
  show "0x61 \<in> set (replicate 999 0x61 @ replicate 201 0x20 :: jsstring)"
    by simp
  show "\<not> isWhiteSpace 0x61"
    by (simp add: isWhiteSpace_def)
qed

section \<open>Properties of the analysis\<close>

text \<open>
  C1: a text that has at least one character that is not whitespace is analysed to at
  least one word and at least one line; the size of the text plays no part. So every
  request that passes the validation of the handler, which admits only such texts of at
  most 1 MiB, has a word count and a line count of at least one.
\<close>

theorem analyzeText_counts_positive:
  "((\<exists>c\<in>set rawText. \<not> isWhiteSpace c) \<longrightarrow>
      1 \<le> wordCount (analyzeText rawText) \<and> 1 \<le> lineCount (analyzeText rawText)) \<and>
   (validate rt event = Inr a \<longrightarrow> 1 \<le> wordCount a \<and> 1 \<le> lineCount a)"
proof (intro conjI impI)
  assume "\<exists>c\<in>set rawText. \<not> isWhiteSpace c"
  then obtain c where "c \<in> set rawText" "\<not> isWhiteSpace c" by blast
  then have "0 < countLines (normalizeText rawText)" "0 < countWords (normalizeText rawText)"
    by (rule analysis_positive)+
  then show "1 \<le> wordCount (analyzeText rawText)" "1 \<le> lineCount (analyzeText rawText)"
    by (simp_all add: analyzeText_counts)
next
  assume v: "validate rt event = Inr a"
  then have "\<not> violated rt event WhitespaceOnly"
    using validate_Inr(1) firstViolation_None by blast
  then obtain c where "c \<in> set (decodedText rt event)" "\<not> isWhiteSpace c"
    by (auto simp: list_all_iff)
  then have "0 < countLines (normalizeText (decodedText rt event))"
    "0 < countWords (normalizeText (decodedText rt event))"
    by (rule analysis_positive)+
  then show "1 \<le> wordCount a" "1 \<le> lineCount a"
    using validate_Inr(2) [OF v] by (simp_all add: analyzeText_counts)
qed

theorem analyzeText_counts_positive_witness:
  "(\<exists>c\<in>set (js ''a b''). \<not> isWhiteSpace c) \<and>
   1 \<le> wordCount (analyzeText (js ''a b'')) \<and> 1 \<le> lineCount (analyzeText (js ''a b'')) \<and>
   validate plainRuntime (plainRequest (js ''hello world'')) = Inr (analyzeText (js ''hello world'')) \<and>
   1 \<le> wordCount (analyzeText (js ''hello world'')) \<and>
   1 \<le> lineCount (analyzeText (js ''hello world''))"
proof -
  have h: "\<exists>c\<in>set (js ''a b''). \<not> isWhiteSpace c"
    by (simp add: js_def isWhiteSpace_def)
  show ?thesis
    using h validate_hello
      analyzeText_counts_positive [of "js ''a b''" plainRuntime "plainRequest (js ''hello world'')"
        "analyzeText (js ''hello world'')"]
    by blast
qed

text \<open>
  C4: normalization is idempotent. The normalized text of a normalized text is that
  text again.
\<close>

theorem normalization_idempotent:
  "normalizedText (analyzeText (normalizedText (analyzeText s))) = normalizedText (analyzeText s)"
  by (simp add: analyzeText_def Let_def normalizeText_idem)

theorem normalization_idempotent_witness:
  "normalizedText (analyzeText (normalizedText (analyzeText ([CR, LF] @ js '' a'' @ [CR] @ js ''b ''))))
     = js ''a'' @ [LF] @ js ''b''"
  using normalization_idempotent [of "[CR, LF] @ js '' a'' @ [CR] @ js ''b ''"]
  by (simp add: analyzeText_def normalizeText_def replace_cr_def trim_def js_def
      isWhiteSpace_def CR_def LF_def Let_def)

text \<open>
  C5: a text without carriage returns, written with CR LF or with a lone CR in place
  of each of its line feeds, is analysed to the same normalized text, the same word
  count and the same line count as the text itself.
\<close>

theorem line_endings_equivalent:
  assumes "CR \<notin> set t"
  shows "analyzeText (with_crlf t) = analyzeText t \<and> analyzeText (with_cr t) = analyzeText t"
  using assms analyzeText_cong [OF normalizeText_with_crlf] analyzeText_cong [OF normalizeText_with_cr]
  by blast

theorem line_endings_equivalent_witness:
  "CR \<notin> set (js ''a b'' @ [LF, LF] @ js ''c'') \<and>
   lineCount (analyzeText (js ''a b'' @ [CR, LF, CR, LF] @ js ''c'')) = 2 \<and>
   lineCount (analyzeText (js ''a b'' @ [CR, CR] @ js ''c'')) = 2 \<and>
   lineCount (analyzeText (js ''a b'' @ [LF, LF] @ js ''c'')) = 2"
proof -
  have h: "CR \<notin> set (js ''a b'' @ [LF, LF] @ js ''c'')"
    by (simp add: js_def CR_def LF_def)
  have n: "lineCount (analyzeText (js ''a b'' @ [LF, LF] @ js ''c'')) = 2"
    by (simp add: analyzeText_def normalizeText_def replace_cr_def trim_def js_def
        isWhiteSpace_def CR_def LF_def Let_def)
  have c: "with_crlf (js ''a b'' @ [LF, LF] @ js ''c'') = js ''a b'' @ [CR, LF, CR, LF] @ js ''c''"
    by (simp add: with_crlf_def js_def CR_def LF_def)
  have r: "with_cr (js ''a b'' @ [LF, LF] @ js ''c'') = js ''a b'' @ [CR, CR] @ js ''c''"
    by (simp add: with_cr_def js_def CR_def LF_def)
  show ?thesis using h n line_endings_equivalent [OF h] unfolding c r by simp
qed

text \<open>
  C10: the analysis never counts more lines than words.
\<close>

theorem lineCount_le_wordCount:
  "lineCount (analyzeText s) \<le> wordCount (analyzeText s)"
  by (simp add: analyzeText_counts lines_le_words)

theorem lineCount_le_wordCount_witness:
  "lineCount (analyzeText (js ''a b'' @ [LF] @ js ''c'')) \<le>
   wordCount (analyzeText (js ''a b'' @ [LF] @ js ''c''))"
  using lineCount_le_wordCount [of "js ''a b'' @ [LF] @ js ''c''"] by simp

section \<open>Concrete texts\<close>

text \<open>
  C8: on the text \<open>hello world\<close>, an empty line, \<open>foo\<close> (line feeds as line breaks),
  the analysis counts three words and two lines.
\<close>

theorem analyzeText_hello_world_foo:
  "wordCount (analyzeText (js ''hello world'' @ [LF, LF] @ js ''foo'')) = 3 \<and>
   lineCount (analyzeText (js ''hello world'' @ [LF, LF] @ js ''foo'')) = 2"
  by (simp add: analyzeText_def normalizeText_def replace_cr_def trim_def js_def
      isWhiteSpace_def CR_def LF_def Let_def)

section \<open>Properties of the handler\<close>



text \<open>
  C3, as stated: whenever the handler answers with a status other than 200, nothing has
  been written. The handler does not undo a write: with a \<open>put\<close> that throws after
  the item has reached the table, a valid request is answered with 500 and its item is
  in the store, which was empty before.
\<close>

theorem failed_put_after_write_counterexample:
  "statusCode (fst (handler (plainRuntime\<lparr>put := latePut\<rparr>) (plainRequest (js ''hello world''))
      sampleContext Map.empty)) = 500 \<and>
   map_option textContent
     (snd (handler (plainRuntime\<lparr>put := latePut\<rparr>) (plainRequest (js ''hello world''))
        sampleContext Map.empty)
      (tableName plainRuntime, numberToString (dateNow plainRuntime))) = Some (js ''hello world'')"
  by (simp add: handler_def validate_put_update validate_hello latePut_def putParams_def
      analyzeText_counts normalizeText_hello)
    (simp add: js_def)

text \<open>
  C3, amended: for every request, the handler answers 200 exactly when the request
  passes validation and \<open>put\<close> returns without throwing. A request that fails validation
  is answered with 400 and the store is left as it was, since \<open>put\<close> is not called. For
  a request that passes validation the store is the one that the single call of \<open>put\<close>
  leaves, and the answer is 500 when that call throws; the handler itself adds nothing
  to what \<open>put\<close> wrote and takes nothing back.
\<close>

theorem handler_writes_only_through_put:
  "(statusCode (fst (handler rt event ctx db)) = 200 \<longleftrightarrow>
      (\<exists>a. validate rt event = Inr a \<and> fst (put rt (putParams rt a) db) = None)) \<and>
   (\<forall>r. validate rt event = Inl r \<longrightarrow>
      handler rt event ctx db = (r, db) \<and> statusCode r = 400) \<and>
   (\<forall>a. validate rt event = Inr a \<longrightarrow>
      snd (handler rt event ctx db) = snd (put rt (putParams rt a) db) \<and>
      (fst (put rt (putParams rt a) db) \<noteq> None \<longrightarrow>
         statusCode (fst (handler rt event ctx db)) = 500))"
proof (cases "validate rt event")
  case (Inl r)
  then show ?thesis by (simp add: handler_def validate_Inl_status)
next
  case (Inr a)
  obtain e db' where p: "put rt (putParams rt a) db = (e, db')"
    by (cases "put rt (putParams rt a) db")
  show ?thesis
  proof (cases e)
    case None
    with Inr p show ?thesis by (simp add: handler_def)
  next
    case (Some errMessage)
    with Inr p show ?thesis by (simp add: handler_def)
  qed
qed

theorem handler_writes_only_through_put_witness:
  "validate plainRuntime (plainRequest (js ''hello world'')) = Inr (analyzeText (js ''hello world'')) \<and>
   fst (put plainRuntime (putParams plainRuntime (analyzeText (js ''hello world''))) Map.empty) = None \<and>
   statusCode (fst (handler plainRuntime (plainRequest (js ''hello world'')) sampleContext Map.empty)) = 200 \<and>
   validate plainRuntime (plainRequest [0x20, 0x09, 0x20]) =
     Inl (badRequest (js ''Uploaded file contains no meaningful text (only whitespace).'')) \<and>
   handler plainRuntime (plainRequest [0x20, 0x09, 0x20]) sampleContext Map.empty =
     (badRequest (js ''Uploaded file contains no meaningful text (only whitespace).''), Map.empty) \<and>
   validate (plainRuntime\<lparr>put := failingPut\<rparr>) (plainRequest (js ''hello world'')) =
     Inr (analyzeText (js ''hello world'')) \<and>
   fst (put (plainRuntime\<lparr>put := failingPut\<rparr>)
     (putParams (plainRuntime\<lparr>put := failingPut\<rparr>) (analyzeText (js ''hello world''))) Map.empty) \<noteq> None \<and>
   statusCode (fst (handler (plainRuntime\<lparr>put := failingPut\<rparr>) (plainRequest (js ''hello world''))
      sampleContext Map.empty)) = 500 \<and>
   snd (handler (plainRuntime\<lparr>put := failingPut\<rparr>) (plainRequest (js ''hello world''))
      sampleContext Map.empty) = Map.empty"
proof -
  have p: "fst (put plainRuntime (putParams plainRuntime (analyzeText (js ''hello world''))) Map.empty) = None"
    by (simp add: plainRuntime_def putItem_def)
  have v: "validate (plainRuntime\<lparr>put := failingPut\<rparr>) (plainRequest (js ''hello world'')) =
     Inr (analyzeText (js ''hello world''))"
    by (simp add: validate_put_update validate_hello)
  have q: "put (plainRuntime\<lparr>put := failingPut\<rparr>)
     (putParams (plainRuntime\<lparr>put := failingPut\<rparr>) (analyzeText (js ''hello world''))) Map.empty =
     (Some (js ''Requested resource not found''), Map.empty)"
    by (simp add: failingPut_def)
  show ?thesis
    using validate_hello p validate_blank v q
      handler_writes_only_through_put [of plainRuntime "plainRequest (js ''hello world'')" sampleContext Map.empty]
      handler_writes_only_through_put [of plainRuntime "plainRequest [0x20, 0x09, 0x20]" sampleContext Map.empty]
      handler_writes_only_through_put [of "plainRuntime\<lparr>put := failingPut\<rparr>" "plainRequest (js ''hello world'')"
        sampleContext Map.empty]
    by simp
qed

text \<open>
  C6, as stated: every text payload of 1200 characters is stored with a \<open>textContent\<close>
  of length 1003. The handler cuts the normalized text, not the payload: a payload of 999
  letters followed by 201 spaces has 1200 characters, is accepted, and is stored with a
  \<open>textContent\<close> of length 999.
\<close>

theorem stored_text_of_1200_characters_counterexample:
  "length (replicate 999 0x61 @ replicate 201 0x20 :: jsstring) = 1200 \<and>
   map_option (length \<circ> textContent)
     (snd (handler plainRuntime (plainRequest (replicate 999 0x61 @ replicate 201 0x20))
        sampleContext Map.empty)
      (tableName plainRuntime, numberToString (dateNow plainRuntime))) = Some 999"
  by (simp add: handler_plainRequest(2) [OF validate_padded] putParams_def analyzeText_counts
      normalizeText_padded)

text \<open>
  C6, amended: a request that passes validation and whose normalized text has more than
  1000 characters (a payload of 1200 letters is one) is answered with 200 when the
  \<open>put\<close> succeeds, and the stored \<open>textContent\<close> is the first 1000 characters of the
  normalized text followed by the three characters \<open>...\<close>, of length 1003. The length
  of the text is no reason to reject the request.
\<close>

theorem stored_text_truncated:
  assumes "putContract (put rt)" and "validate rt event = Inr a"
    and "length (normalizedText a) > 1000" and "fst (put rt (putParams rt a) db) = None"
  shows "statusCode (fst (handler rt event ctx db)) = 200 \<and>
    (\<exists>item. snd (handler rt event ctx db) (tableName rt, numberToString (dateNow rt)) = Some item \<and>
       textContent item = take 1000 (normalizedText a) @ js ''...'' \<and>
       length (textContent item) = 1003)"
proof -
  from assms(1) have
    "put rt (putParams rt a) db =
       (None, db((TableName (putParams rt a), itemId (Item (putParams rt a))) \<mapsto> Item (putParams rt a))) \<or>
     (\<exists>errMessage. put rt (putParams rt a) db = (Some errMessage, db))"
    unfolding putContract_def by blast
  with assms(4) have p: "put rt (putParams rt a) db =
       (None, db((TableName (putParams rt a), itemId (Item (putParams rt a))) \<mapsto> Item (putParams rt a)))"
    by auto
  have k: "(TableName (putParams rt a), itemId (Item (putParams rt a))) =
      (tableName rt, numberToString (dateNow rt))"
    by (simp add: putParams_def)
  have t: "textContent (Item (putParams rt a)) = take 1000 (normalizedText a) @ js ''...''"
    using assms(3) by (simp add: putParams_def)
  have l: "length (take 1000 (normalizedText a) @ js ''...'') = 1003"
    using assms(3) by (simp add: js_def)
  show ?thesis
    using assms(2) p k t l by (simp add: handler_def)
qed

theorem stored_text_truncated_witness:
  "putContract (put plainRuntime) \<and>
   length (replicate 1200 0x61 :: jsstring) = 1200 \<and>
   statusCode (fst (handler plainRuntime (plainRequest (replicate 1200 0x61)) sampleContext Map.empty)) = 200 \<and>
   map_option textContent
     (snd (handler plainRuntime (plainRequest (replicate 1200 0x61)) sampleContext Map.empty)
        (tableName plainRuntime, numberToString (dateNow plainRuntime))) =
     Some (replicate 1000 0x61 @ js ''...'')"
proof -
  let ?a = "analyzeText (replicate 1200 0x61)"
  have c: "putContract (put plainRuntime)"
    by (simp add: plainRuntime_def putContract_putItem)
  have n: "normalizedText ?a = replicate 1200 0x61"
    by (simp add: analyzeText_counts normalizeText_letters)
  have l: "length (normalizedText ?a) > 1000"
    unfolding n by simp
  have p: "fst (put plainRuntime (putParams plainRuntime ?a) Map.empty) = None"
    by (simp add: plainRuntime_def putItem_def)
  have t: "take 1000 (normalizedText ?a) = replicate 1000 0x61"
    unfolding n by simp
  show ?thesis
    using c stored_text_truncated [OF c validate_letters l p, of sampleContext] unfolding t by auto
qed



text \<open>
  C9: a request whose body is the empty string is answered like a request without a
  body, with status 400 and the message \<open>No file uploaded.\<close>, whatever its headers and
  its encoding flag are, and the store is left as it was. That response is not the one
  for an empty decoded payload.
\<close>

theorem empty_body_is_missing_payload:
  "handler rt (event\<lparr>body := Some []\<rparr>) ctx db = (badRequest (js ''No file uploaded.''), db) \<and>
   handler rt (event\<lparr>body := None\<rparr>) ctx db = (badRequest (js ''No file uploaded.''), db) \<and>
   badRequest (js ''No file uploaded.'') \<noteq> badRequest (js ''Uploaded file is empty.'')"
  by (simp add: handler_def validate_def badRequest_def js_def)

theorem empty_body_is_missing_payload_witness:
  "handler plainRuntime (plainRequest []) sampleContext Map.empty =
     (badRequest (js ''No file uploaded.''), Map.empty)"
proof -
  have "(plainRequest (js ''ignored''))\<lparr>body := Some []\<rparr> = plainRequest []"
    by (simp add: plainRequest_def)
  then show ?thesis
    using empty_body_is_missing_payload [of plainRuntime "plainRequest (js ''ignored'')" sampleContext Map.empty]
    by simp
qed

end
